theory Spec2Isabelle
  imports Complex_Main "HOL-Library.Sublist" "HOL-Library.Multiset"
begin

section \<open>The nutrition diary data layer (db/actions/diaryActions.ts)\<close>

text \<open>
  The three exported operations \<open>searchFoods\<close>, \<open>logFoodToDiary\<close> and
  \<open>observeDiaryEntriesForDate\<close> are embedded as HOL functions over an explicit database
  value. The storage library they call (query clauses, \<open>fetch\<close>, \<open>write\<close>, \<open>create\<close>,
  \<open>observe\<close>) is not part of the repository; the part of it that the three operations use
  is modelled below, each definition saying what it stands for.

  Conventions.
  \<^item> A JavaScript \<open>number\<close> is a value of an arbitrary type \<open>'n\<close> with a multiplication;
    general theorems hold for every such type, concrete examples are computed in \<open>real\<close>
    (exact arithmetic, no rounding).
  \<^item> A JavaScript string is a \<open>string\<close>, each \<open>char\<close> being a code unit below 256
    (the Latin-1 range: ASCII and the accented letters of western European languages).
  \<^item> A rejected promise is a result \<open>Inl error\<close>; a function that takes effect on the
    store returns the new database beside its result.
\<close>

subsection \<open>Data model\<close>

text \<open>
  Modelled from the spec: the \<open>Food\<close> model class (table \<open>foods\<close>), whose declaration
  is not under the repository's sources. Its fields are those of the specification's
  FoodRecord, which are also the ones the module reads; nutrient values are per serving.
  The field \<open>id\<close> is written \<open>id'\<close>.
\<close>

record 'n Food =
  id' :: string
  name :: string
  calories :: 'n
  protein_g :: 'n
  carbs_g :: 'n
  fat_g :: 'n

text \<open>The union type \<open>"breakfast" | "lunch" | "dinner" | "snacks"\<close>.\<close>

datatype MealType = breakfast | lunch | dinner | snacks

text \<open>The \<open>options\<close> argument of \<open>logFoodToDiary\<close>.\<close>

record 'n options =
  userId :: string
  food :: "'n Food"
  date :: string
  mealType :: MealType
  servings :: 'n

text \<open>
  Modelled from the spec: the \<open>DiaryEntry\<close> model class (table \<open>diary_entries\<close>), whose
  declaration is not under the repository's sources. Its fields are those of the
  specification's DiaryEntry, which are also the ones the module assigns.
\<close>

record 'n DiaryEntry =
  id' :: string
  userId :: string
  foodId :: string
  date :: string
  mealType :: MealType
  servings :: 'n
  calories :: 'n
  protein_g :: 'n
  carbs_g :: 'n
  fat_g :: 'n

text \<open>
  The two collections \<open>foodsCollection\<close> and \<open>diaryEntriesCollection\<close> of the module,
  each a sequence of rows in the store's iteration order.
\<close>

record 'n Database =
  foodsCollection :: "'n Food list"
  diaryEntriesCollection :: "'n DiaryEntry list"

datatype error = StoreUnavailable | WriteFailed

text \<open>
  What a call returns to its caller: \<open>logFoodToDiary\<close> has no \<open>return\<close> statement, so its
  promise resolves to \<open>undefined\<close>.
\<close>

datatype 'a returned = Undefined | Value 'a

subsection \<open>The storage library, as far as the module uses it\<close>

text \<open>
  The behaviour of the storage engine during one call, which the module does not control:
  whether reads succeed, whether the write transaction commits, and the new raw record
  (carrying the freshly generated id) that \<open>create\<close> hands to its builder.
\<close>

record 'n StorageEngine =
  available :: bool
  commits :: bool
  prepared :: "'n DiaryEntry"

text \<open>
  \<open>String.prototype.toLowerCase\<close> on code units below 256: the capital letters are
  \<open>A\<close> to \<open>Z\<close> (65 to 90) and the accented capitals 192 to 222 except the
  multiplication sign 215; each has its small letter 32 places higher, and every other
  code unit is left as it is.
\<close>

definition toLowerCase_char :: "char \<Rightarrow> char" where
  "toLowerCase_char c =
     (let n = of_char c :: nat
      in if (65 \<le> n \<and> n \<le> 90) \<or> (192 \<le> n \<and> n \<le> 222 \<and> n \<noteq> 215)
         then char_of (n + 32) else c)"

definition toLowerCase :: "string \<Rightarrow> string" where
  "toLowerCase s = map toLowerCase_char s"

text \<open>
  \<open>String.prototype.split\<close> with a one-character separator; it keeps the empty pieces
  (\<open>"".split(" ")\<close> is \<open>[""]\<close>).
\<close>

fun split_on :: "char \<Rightarrow> string \<Rightarrow> string list" where
  "split_on sep [] = [[]]"
| "split_on sep (c # cs) =
     (if c = sep then [] # split_on sep cs
      else (case split_on sep cs of
              [] \<Rightarrow> [[c]]
            | w # ws \<Rightarrow> (c # w) # ws))"

text \<open>
  Modelled from the spec: \<open>Q.like(pattern)\<close>, the storage library's pattern comparison,
  which is not under the repository's sources. The specification's store vocabulary has
  it as "contains substring"; the code reaches that by building the pattern \<open>%word%\<close>,
  so the comparison is SQL's \<open>LIKE\<close>, as SQLite (the library's engine on a phone)
  has it, and that is what is modelled: \<open>%\<close> matches any run of characters (also the
  empty one), \<open>_\<close> matches exactly one character, every other character matches
  itself, the letters \<open>A\<close> to \<open>Z\<close> also their small letters and conversely; accented
  letters match in their own case only (\<open>like_fold\<close> is the case folding of \<open>LIKE\<close>).
  \<open>like p s\<close> says that the whole of \<open>s\<close> matches the pattern \<open>p\<close>.
\<close>

definition like_fold :: "char \<Rightarrow> char" where
  "like_fold c =
     (let n = of_char c :: nat in if 65 \<le> n \<and> n \<le> 90 then char_of (n + 32) else c)"

fun like :: "string \<Rightarrow> string \<Rightarrow> bool" where
  "like [] s = (s = [])"
| "like (p # ps) [] = (p = CHR ''%'' \<and> like ps [])"
| "like (p # ps) (c # cs) =
     (if p = CHR ''%'' then like ps (c # cs) \<or> like (p # ps) cs
      else (p = CHR ''_'' \<or> like_fold p = like_fold c) \<and> like ps cs)"

text \<open>
  Modelled from the spec: the storage library's query clauses, which are not under the
  repository's sources; the specification has them as predicate composition with AND
  over "contains substring" and "equals" predicates. The clauses the module builds are
  \<open>Q.where(column, Q.like(pattern))\<close>, \<open>Q.where(column, value)\<close> (exact equality) and
  \<open>Q.and(...clauses)\<close>. A column is given by its accessor. As a conjunction, \<open>Q.and\<close>
  of no clause at all holds of every row.
\<close>

datatype comparison = Q_eq string | Q_like string

datatype 'r clause = Q_where "'r \<Rightarrow> string" comparison | Q_and "'r clause list"

fun matches :: "'r clause \<Rightarrow> 'r \<Rightarrow> bool" where
  "matches (Q_where col (Q_eq v)) r = (col r = v)"
| "matches (Q_where col (Q_like p)) r = like p (col r)"
| "matches (Q_and cs) r = list_all (\<lambda>c. matches c r) cs"

text \<open>
  Modelled from the spec: \<open>collection.query(clause).fetch()\<close>, the storage library's
  predicate-filtered fetch, which is not under the repository's sources: the matching
  rows as a sequence, in the collection's order, or \<open>StoreUnavailable\<close> when the engine
  cannot be reached.
\<close>

definition fetch :: "'n StorageEngine \<Rightarrow> 'r clause \<Rightarrow> 'r list \<Rightarrow> error + 'r list" where
  "fetch eng q rows =
     (if available eng then Inr (filter (matches q) rows) else Inl StoreUnavailable)"

text \<open>
  Modelled from the spec: \<open>diaryEntriesCollection.create(builder)\<close>, the storage
  library's record creation, which is not under the repository's sources: the builder's
  assignments are applied to the prepared record, and the result is appended to the
  collection.
\<close>

definition create ::
  "'n StorageEngine \<Rightarrow> ('n DiaryEntry \<Rightarrow> 'n DiaryEntry) \<Rightarrow> 'n Database \<Rightarrow> 'n Database" where
  "create eng builder db =
     db\<lparr>diaryEntriesCollection := diaryEntriesCollection db @ [builder (prepared eng)]\<rparr>"

text \<open>
  Modelled from the spec: \<open>database.write(work)\<close>, the storage engine's scoped write
  block, which is not under the repository's sources. Section 6 of the specification
  describes it as all-or-nothing: when the transaction commits, the effect of the whole
  block is in the store; when it does not, the call is rejected with \<open>WriteFailed\<close> and
  the store is as it was.
\<close>

definition database_write ::
  "'n StorageEngine \<Rightarrow> ('n Database \<Rightarrow> 'n Database) \<Rightarrow> 'n Database
     \<Rightarrow> (error + unit) \<times> 'n Database" where
  "database_write eng work db =
     (if commits eng then (Inr (), work db) else (Inl WriteFailed, db))"

text \<open>
  Modelled from the spec: \<open>query.observe()\<close>, the storage engine's live subscription,
  which is not under the repository's sources. Sections 4.3 and 6 of the specification
  describe it: on subscription the current matching rows are delivered, and after every
  change of the store that changes the matching rows the complete current matching rows
  are delivered again. \<open>history\<close> is the collection at subscription time followed by the
  collection after each later write; the result is the sequence of delivered snapshots.
\<close>

definition observe :: "'r clause \<Rightarrow> 'r list list \<Rightarrow> 'r list list" where
  "observe q history = remdups_adj (map (filter (matches q)) history)"

subsection \<open>The module's operations\<close>

text \<open>
  \<open>searchFoods(query)\<close>. The local constant \<open>searchWords\<close> is the lowercased query
  split at the space character, without the empty pieces.
\<close>

definition searchWords :: "string \<Rightarrow> string list" where
  "searchWords query = filter (\<lambda>w. w \<noteq> []) (split_on CHR '' '' (toLowerCase query))"

definition searchFoods ::
  "'n StorageEngine \<Rightarrow> string \<Rightarrow> 'n Database \<Rightarrow> error + 'n Food list" where
  "searchFoods eng query db =
     (if query = [] then Inr []
      else fetch eng
             (Q_and (map (\<lambda>word. Q_where Food.name (Q_like (''%'' @ word @ ''%'')))
                       (searchWords query)))
             (foodsCollection db))"

text \<open>
  \<open>logFoodToDiary(options)\<close>. The \<open>console.log\<close> after the write has no effect on the
  store or on the result and is left out.
\<close>

definition logFoodToDiary ::
  "('n::times) StorageEngine \<Rightarrow> 'n options \<Rightarrow> 'n Database
     \<Rightarrow> (error + 'n DiaryEntry returned) \<times> 'n Database" where
  "logFoodToDiary eng opts db =
     (let userId = options.userId opts;
          food = options.food opts;
          date = options.date opts;
          mealType = options.mealType opts;
          servings = options.servings opts
      in case database_write eng
                (create eng (\<lambda>entry. entry
                   \<lparr>userId := userId,
                    foodId := Food.id' food,
                    date := date,
                    mealType := mealType,
                    servings := servings,
                    calories := Food.calories food * servings,
                    protein_g := Food.protein_g food * servings,
                    carbs_g := Food.carbs_g food * servings,
                    fat_g := Food.fat_g food * servings\<rparr>))
                db of
           (Inl err, db') \<Rightarrow> (Inl err, db')
         | (Inr _, db') \<Rightarrow> (Inr Undefined, db'))"

text \<open>\<open>observeDiaryEntriesForDate(date)\<close>, as the snapshots it delivers along a history.\<close>

definition observeDiaryEntriesForDate ::
  "string \<Rightarrow> 'n Database list \<Rightarrow> 'n DiaryEntry list list" where
  "observeDiaryEntriesForDate = (\<lambda>date history.
     observe (Q_where DiaryEntry.date (Q_eq date)) (map diaryEntriesCollection history))"

subsection \<open>The specification's search, in its own words\<close>

text \<open>
  The specification describes the search without reference to patterns: a query that is
  empty after trimming gives the empty sequence; otherwise the query is lowercased and
  split on whitespace into non-empty tokens, and a food matches when its name contains
  every token as a substring, case-insensitively. These definitions follow that wording;
  they are compared with \<open>searchFoods\<close> below. The whitespace characters are those of
  JavaScript below 256: space, tab, line feed, vertical tab, form feed, carriage return
  and the no-break space.
\<close>

definition is_whitespace :: "char \<Rightarrow> bool" where
  "is_whitespace c =
     (c = CHR '' '' \<or> c = CHR 0x09 \<or> c = CHR 0x0A \<or> c = CHR 0x0B \<or> c = CHR 0x0C
        \<or> c = CHR 0x0D \<or> c = CHR 0xA0)"







text \<open>
  Conditions under which the pattern search and the specification's search are
  compared. On a query: it has a character other than the space (so that there is a
  search word), no pattern metacharacter occurs in it, and the space is its only
  whitespace character. On a catalog: no name has a capital letter outside \<open>A\<close> to
  \<open>Z\<close>, the names being what \<open>LIKE\<close> folds.
\<close>

definition has_word :: "string \<Rightarrow> bool" where
  "has_word query = list_ex (\<lambda>c. c \<noteq> CHR '' '') query"

definition no_wildcards :: "string \<Rightarrow> bool" where
  "no_wildcards query = list_all (\<lambda>c. c \<noteq> CHR ''%'' \<and> c \<noteq> CHR ''_'') query"



subsection \<open>Example data\<close>

definition chicken :: "real Food" where
  "chicken = \<lparr>Food.id' = ''f1'', Food.name = ''Grilled Chicken Breast'', Food.calories = 165,
     Food.protein_g = 31, Food.carbs_g = 0, Food.fat_g = 36 / 10\<rparr>"

definition salmon :: "real Food" where
  "salmon = \<lparr>Food.id' = ''f2'', Food.name = ''Baked Salmon'', Food.calories = 208,
     Food.protein_g = 20, Food.carbs_g = 0, Food.fat_g = 13\<rparr>"

text \<open>
  Two foods with an accented letter in the name: the first is written in capitals, with
  the capital e acute (code unit 201), the second has the small e acute (233).
\<close>

definition cafe_creme :: "real Food" where
  "cafe_creme = \<lparr>Food.id' = ''f3'', Food.name = ''CAF'' @ [CHR 0xC9] @ '' CREME'',
     Food.calories = 120, Food.protein_g = 4, Food.carbs_g = 10, Food.fat_g = 7\<rparr>"

definition cafe_latte :: "real Food" where
  "cafe_latte = \<lparr>Food.id' = ''f4'', Food.name = ''Caf'' @ [CHR 0xE9] @ '' Latte'',
     Food.calories = 150, Food.protein_g = 8, Food.carbs_g = 12, Food.fat_g = 6\<rparr>"

definition cafe_db :: "real Database" where
  "cafe_db = \<lparr>foodsCollection = [cafe_creme, cafe_latte], diaryEntriesCollection = []\<rparr>"

text \<open>A new raw record as \<open>create\<close> prepares it: the generated id, columns not yet set.\<close>

definition raw_entry :: "real DiaryEntry" where
  "raw_entry = \<lparr>id' = ''e1'', userId = [], foodId = [], date = [], mealType = snacks,
     servings = 0, calories = 0, protein_g = 0, carbs_g = 0, fat_g = 0\<rparr>"

definition engine_ok :: "real StorageEngine" where
  "engine_ok = \<lparr>available = True, commits = True, prepared = raw_entry\<rparr>"

definition engine_failing :: "real StorageEngine" where
  "engine_failing = \<lparr>available = True, commits = False, prepared = raw_entry\<rparr>"

definition catalog_db :: "real Database" where
  "catalog_db = \<lparr>foodsCollection = [chicken, salmon], diaryEntriesCollection = []\<rparr>"

definition log_opts :: "real options" where
  "log_opts = \<lparr>options.userId = ''u1'', food = chicken, options.date = ''2024-01-15'',
     options.mealType = lunch, options.servings = 2\<rparr>"

definition bad_opts :: "real options" where
  "bad_opts = log_opts\<lparr>options.date := ''15/01/2024'', options.servings := - 1\<rparr>"

definition logged_entry :: "real DiaryEntry" where
  "logged_entry = \<lparr>id' = ''e1'', userId = ''u1'', foodId = ''f1'', date = ''2024-01-15'',
     mealType = lunch, servings = 2, calories = 330, protein_g = 62, carbs_g = 0,
     fat_g = 72 / 10\<rparr>"

definition entry_5 :: "real DiaryEntry" where
  "entry_5 = logged_entry\<lparr>id' := ''e5'', date := ''2024-01-5''\<rparr>"

definition entry_16 :: "real DiaryEntry" where
  "entry_16 = logged_entry\<lparr>id' := ''e16'', date := ''2024-01-16''\<rparr>"

definition diary_db :: "real Database" where
  "diary_db = \<lparr>foodsCollection = [chicken, salmon], diaryEntriesCollection = [entry_5, entry_16]\<rparr>"

definition other_day_opts :: "real options" where
  "other_day_opts = log_opts\<lparr>options.date := ''2024-01-16''\<rparr>"

section \<open>Logging a food\<close>

text \<open>The two outcomes of \<open>logFoodToDiary\<close>, by whether the write transaction commits.\<close>

lemma logFoodToDiary_commit:
  assumes "commits eng"
  shows "logFoodToDiary eng opts db =
    (Inr Undefined,
     db\<lparr>diaryEntriesCollection := diaryEntriesCollection db @
        [prepared eng
           \<lparr>userId := options.userId opts,
            foodId := Food.id' (food opts),
            date := options.date opts,
            mealType := options.mealType opts,
            servings := options.servings opts,
            calories := Food.calories (food opts) * options.servings opts,
            protein_g := Food.protein_g (food opts) * options.servings opts,
            carbs_g := Food.carbs_g (food opts) * options.servings opts,
            fat_g := Food.fat_g (food opts) * options.servings opts\<rparr>]\<rparr>)"
  using assms by (simp add: logFoodToDiary_def database_write_def create_def Let_def)

lemma logFoodToDiary_fail:
  assumes "\<not> commits eng"
  shows "logFoodToDiary eng opts db = (Inl WriteFailed, db)"
  using assms by (simp add: logFoodToDiary_def database_write_def Let_def)

text \<open>
  Claim C1. When the write commits, the entry that \<open>logFoodToDiary\<close> appends to the
  diary collection has each of its four nutrient fields equal to the food's per-serving
  value times the servings: calories, protein_g, carbs_g and fat_g. The witness is the
  specification's example: 165, 31, 0 and 3.6 per serving at 2 servings give 330, 62, 0
  and 7.2.
\<close>

theorem logFoodToDiary_denormalized:
  assumes "commits eng"
  shows "\<exists>entry. diaryEntriesCollection (snd (logFoodToDiary eng opts db))
                    = diaryEntriesCollection db @ [entry]
           \<and> calories entry = Food.calories (food opts) * options.servings opts
           \<and> protein_g entry = Food.protein_g (food opts) * options.servings opts
           \<and> carbs_g entry = Food.carbs_g (food opts) * options.servings opts
           \<and> fat_g entry = Food.fat_g (food opts) * options.servings opts"
  using assms by (simp add: logFoodToDiary_commit)

theorem logFoodToDiary_denormalized_witness:
  "commits engine_ok
   \<and> Food.calories (food log_opts) = 165 \<and> Food.protein_g (food log_opts) = 31
   \<and> Food.carbs_g (food log_opts) = 0 \<and> Food.fat_g (food log_opts) = 36 / 10
   \<and> options.servings log_opts = 2
   \<and> (\<exists>entry. diaryEntriesCollection (snd (logFoodToDiary engine_ok log_opts catalog_db)) = [entry]
           \<and> calories entry = 330 \<and> protein_g entry = 62 \<and> carbs_g entry = 0
           \<and> fat_g entry = 72 / 10)"
  using logFoodToDiary_denormalized [of engine_ok log_opts catalog_db]
  by (simp add: engine_ok_def log_opts_def chicken_def catalog_db_def)

text \<open>
  Claim C4, as amended. \<open>logFoodToDiary\<close> checks none of its inputs: whatever the
  servings (zero and negative included) and whatever the date string, the call goes to
  the store write. When the write commits, the call resolves and exactly one entry
  carrying the given servings, date and meal type is appended; the only failure is the
  store's \<open>WriteFailed\<close>, which leaves the database as it was. A meal type outside the
  four values is excluded by the type of the parameter.
\<close>

theorem logFoodToDiary_no_validation:
  "(commits eng \<longrightarrow>
      fst (logFoodToDiary eng opts db) = Inr Undefined
      \<and> (\<exists>entry. diaryEntriesCollection (snd (logFoodToDiary eng opts db))
                    = diaryEntriesCollection db @ [entry]
            \<and> servings entry = options.servings opts
            \<and> date entry = options.date opts
            \<and> mealType entry = options.mealType opts))
   \<and> (\<not> commits eng \<longrightarrow> logFoodToDiary eng opts db = (Inl WriteFailed, db))"
  by (simp add: logFoodToDiary_commit logFoodToDiary_fail)

theorem logFoodToDiary_no_validation_witness:
  "commits engine_ok
   \<and> fst (logFoodToDiary engine_ok bad_opts catalog_db) = Inr Undefined
   \<and> (\<exists>entry. diaryEntriesCollection (snd (logFoodToDiary engine_ok bad_opts catalog_db)) = [entry]
         \<and> servings entry = - 1 \<and> date entry = ''15/01/2024'' \<and> mealType entry = lunch)
   \<and> \<not> commits engine_failing
   \<and> logFoodToDiary engine_failing bad_opts catalog_db = (Inl WriteFailed, catalog_db)"
  using logFoodToDiary_no_validation [of engine_ok bad_opts catalog_db]
    logFoodToDiary_no_validation [of engine_failing bad_opts catalog_db]
  by (simp add: engine_ok_def engine_failing_def bad_opts_def log_opts_def catalog_db_def)

text \<open>
  The claim as written (an \<open>InvalidInput\<close> failure before any store access) fails for
  servings \<open>-1\<close> and the date \<open>15/01/2024\<close>: the call resolves and the entry is stored,
  negative totals included.
\<close>

theorem logFoodToDiary_invalid_input_counterexample:
  "\<not> 0 < options.servings bad_opts
   \<and> options.date bad_opts = ''15/01/2024''
   \<and> logFoodToDiary engine_ok bad_opts catalog_db
       = (Inr Undefined,
          catalog_db\<lparr>diaryEntriesCollection :=
            [logged_entry\<lparr>date := ''15/01/2024'', servings := - 1, calories := - 165,
               protein_g := - 31, carbs_g := 0, fat_g := - (36 / 10)\<rparr>]\<rparr>)"
  by (simp add: logFoodToDiary_commit engine_ok_def bad_opts_def log_opts_def catalog_db_def
      chicken_def logged_entry_def raw_entry_def)

text \<open>
  Claim C5. A call of \<open>logFoodToDiary\<close> has exactly two outcomes. Either the write
  commits, and the diary collection has grown by one entry, every field of which is set
  (the id from the prepared record, the other nine from the arguments), the food
  collection being untouched; or the write fails, the call is rejected with
  \<open>WriteFailed\<close>, and the database is exactly the one before the call.
\<close>

theorem logFoodToDiary_atomic:
  "(commits eng
      \<and> fst (logFoodToDiary eng opts db) = Inr Undefined
      \<and> foodsCollection (snd (logFoodToDiary eng opts db)) = foodsCollection db
      \<and> (\<exists>entry. diaryEntriesCollection (snd (logFoodToDiary eng opts db))
                    = diaryEntriesCollection db @ [entry]
            \<and> id' entry = id' (prepared eng)
            \<and> userId entry = options.userId opts
            \<and> foodId entry = Food.id' (food opts)
            \<and> date entry = options.date opts
            \<and> mealType entry = options.mealType opts
            \<and> servings entry = options.servings opts
            \<and> calories entry = Food.calories (food opts) * options.servings opts
            \<and> protein_g entry = Food.protein_g (food opts) * options.servings opts
            \<and> carbs_g entry = Food.carbs_g (food opts) * options.servings opts
            \<and> fat_g entry = Food.fat_g (food opts) * options.servings opts))
   \<or> (\<not> commits eng
      \<and> fst (logFoodToDiary eng opts db) = Inl WriteFailed
      \<and> snd (logFoodToDiary eng opts db) = db)"
proof (cases "commits eng")
  case True
  then show ?thesis by (simp add: logFoodToDiary_commit)
next
  case False
  then show ?thesis by (simp add: logFoodToDiary_fail)
qed

theorem logFoodToDiary_atomic_witness:
  "\<not> commits engine_failing
   \<and> logFoodToDiary engine_failing log_opts catalog_db = (Inl WriteFailed, catalog_db)
   \<and> commits engine_ok
   \<and> logFoodToDiary engine_ok log_opts catalog_db
       = (Inr Undefined, catalog_db\<lparr>diaryEntriesCollection := [logged_entry]\<rparr>)"
  using logFoodToDiary_atomic [of engine_failing log_opts catalog_db]
    logFoodToDiary_atomic [of engine_ok log_opts catalog_db]
  by (auto simp: engine_failing_def engine_ok_def log_opts_def catalog_db_def chicken_def
      logged_entry_def raw_entry_def prod_eq_iff)

text \<open>
  Claim C7, as amended. When the write commits, \<open>logFoodToDiary\<close> resolves with no
  value (\<open>undefined\<close>); the entry it created, carrying the id generated by the store and
  the given user, food, date, meal type and servings, is the last row of the diary
  collection.
\<close>

theorem logFoodToDiary_returns_undefined:
  assumes "commits eng"
  shows "fst (logFoodToDiary eng opts db) = Inr Undefined
     \<and> (\<exists>entry. diaryEntriesCollection (snd (logFoodToDiary eng opts db))
                   = diaryEntriesCollection db @ [entry]
           \<and> id' entry = id' (prepared eng)
           \<and> userId entry = options.userId opts
           \<and> foodId entry = Food.id' (food opts)
           \<and> date entry = options.date opts
           \<and> mealType entry = options.mealType opts
           \<and> servings entry = options.servings opts)"
  using assms by (simp add: logFoodToDiary_commit)

theorem logFoodToDiary_returns_undefined_witness:
  "commits engine_ok
   \<and> fst (logFoodToDiary engine_ok log_opts catalog_db) = Inr Undefined
   \<and> (\<exists>entry. diaryEntriesCollection (snd (logFoodToDiary engine_ok log_opts catalog_db)) = [entry]
         \<and> id' entry = ''e1'' \<and> userId entry = ''u1'' \<and> foodId entry = ''f1''
         \<and> date entry = ''2024-01-15'' \<and> mealType entry = lunch \<and> servings entry = 2)"
  using logFoodToDiary_returns_undefined [of engine_ok log_opts catalog_db]
  by (simp add: engine_ok_def log_opts_def catalog_db_def chicken_def raw_entry_def)

text \<open>
  The claim as written (the call returns the entry it created) fails on a valid call: the
  result is \<open>undefined\<close>, not the stored entry.
\<close>

theorem logFoodToDiary_returns_entry_counterexample:
  "fst (logFoodToDiary engine_ok log_opts catalog_db) \<noteq> Inr (Value logged_entry)
   \<and> fst (logFoodToDiary engine_ok log_opts catalog_db) = Inr Undefined
   \<and> diaryEntriesCollection (snd (logFoodToDiary engine_ok log_opts catalog_db)) = [logged_entry]"
  by (simp add: logFoodToDiary_commit engine_ok_def log_opts_def catalog_db_def
      chicken_def logged_entry_def raw_entry_def)

text \<open>
  Claim C8. The entry appended by \<open>logFoodToDiary\<close> keeps its totals when the food
  catalog changes afterwards: whatever the food collection is replaced by, the diary
  collection is the same, and the entry's totals are the servings times the values the
  food had when the entry was created.
\<close>

theorem logged_totals_stable:
  assumes "commits eng"
  shows "\<exists>entry. diaryEntriesCollection (snd (logFoodToDiary eng opts db))
                    = diaryEntriesCollection db @ [entry]
           \<and> diaryEntriesCollection ((snd (logFoodToDiary eng opts db))\<lparr>foodsCollection := catalog'\<rparr>)
                    = diaryEntriesCollection db @ [entry]
           \<and> calories entry = Food.calories (food opts) * options.servings opts
           \<and> protein_g entry = Food.protein_g (food opts) * options.servings opts
           \<and> carbs_g entry = Food.carbs_g (food opts) * options.servings opts
           \<and> fat_g entry = Food.fat_g (food opts) * options.servings opts"
  using assms by (simp add: logFoodToDiary_commit)

theorem logged_totals_stable_witness:
  "commits engine_ok
   \<and> (\<exists>entry. diaryEntriesCollection (snd (logFoodToDiary engine_ok log_opts catalog_db)) = [entry]
         \<and> diaryEntriesCollection
             ((snd (logFoodToDiary engine_ok log_opts catalog_db))
                \<lparr>foodsCollection := [chicken\<lparr>Food.calories := 999\<rparr>, salmon]\<rparr>) = [entry]
         \<and> calories entry = 330 \<and> protein_g entry = 62 \<and> carbs_g entry = 0
         \<and> fat_g entry = 72 / 10)"
  using logged_totals_stable [of engine_ok log_opts catalog_db "[chicken\<lparr>Food.calories := 999\<rparr>, salmon]"]
  by (simp add: engine_ok_def log_opts_def catalog_db_def chicken_def)

section \<open>Observing the entries of a date\<close>

lemma remdups_adj_snoc:
  "remdups_adj (xs @ [y]) = (if xs \<noteq> [] \<and> last xs = y then remdups_adj xs else remdups_adj xs @ [y])"
proof (cases xs rule: rev_cases)
  case Nil
  then show ?thesis by simp
next
  case (snoc ys x)
  then show ?thesis by (simp add: remdups_adj_append_two)
qed

lemma observe_first:
  "observe q (rows # later) \<noteq> [] \<and> hd (observe q (rows # later)) = filter (matches q) rows"
  by (simp add: observe_def hd_remdups_adj)

lemma observe_snoc:
  assumes "history \<noteq> []"
  shows "observe q (history @ [rows]) =
     (if filter (matches q) rows = filter (matches q) (last history) then observe q history
      else observe q history @ [filter (matches q) rows])"
  using assms by (auto simp: observe_def remdups_adj_snoc last_map)

lemma observe_rows:
  "snapshot \<in> set (observe q history) \<Longrightarrow> r \<in> set snapshot \<Longrightarrow> matches q r"
  by (auto simp: observe_def)

lemma logFoodToDiary_other_date:
  assumes "options.date opts \<noteq> d"
  shows "filter (\<lambda>e. date e = d) (diaryEntriesCollection (snd (logFoodToDiary eng opts db)))
           = filter (\<lambda>e. date e = d) (diaryEntriesCollection db)"
  using assms by (cases "commits eng") (simp_all add: logFoodToDiary_commit logFoodToDiary_fail)

lemma matches_date_eq: "matches (Q_where date (Q_eq d)) = (\<lambda>e. date e = d)"
  by (rule ext) simp

text \<open>
  Claim C6. For a date \<open>d\<close>, the snapshots delivered by
  \<open>observeDiaryEntriesForDate d\<close> along a history of the database are such that:
  the first one is the rows whose date is exactly \<open>d\<close> at subscription time; when a
  write changes those rows, the complete new rows are delivered next; every row of every
  delivered snapshot has the date \<open>d\<close>; and a \<open>logFoodToDiary\<close> for another date
  delivers nothing. In the witness, entries dated \<open>2024-01-5\<close> and \<open>2024-01-16\<close> are
  never delivered to a subscription for \<open>2024-01-15\<close>.
\<close>

theorem observeDiaryEntriesForDate_live:
  fixes db0 db' :: "('n::times) Database" and later history :: "'n Database list"
    and opts :: "'n options"
  shows "(hd (observeDiaryEntriesForDate d (db0 # later))
       = filter (\<lambda>e. date e = d) (diaryEntriesCollection db0)
     \<and> observeDiaryEntriesForDate d (db0 # later) \<noteq> [])
   \<and> (history \<noteq> [] \<longrightarrow>
        filter (\<lambda>e. date e = d) (diaryEntriesCollection db')
          \<noteq> filter (\<lambda>e. date e = d) (diaryEntriesCollection (last history)) \<longrightarrow>
        observeDiaryEntriesForDate d (history @ [db'])
          = observeDiaryEntriesForDate d history
              @ [filter (\<lambda>e. date e = d) (diaryEntriesCollection db')])
   \<and> (snapshot \<in> set (observeDiaryEntriesForDate d history) \<longrightarrow> entry \<in> set snapshot \<longrightarrow>
        date entry = d)
   \<and> (history \<noteq> [] \<longrightarrow> options.date opts \<noteq> d \<longrightarrow>
        observeDiaryEntriesForDate d (history @ [snd (logFoodToDiary eng opts (last history))])
          = observeDiaryEntriesForDate d history)"
proof -
  have first: "hd (observeDiaryEntriesForDate d (db0 # later))
       = filter (\<lambda>e. date e = d) (diaryEntriesCollection db0)
     \<and> observeDiaryEntriesForDate d (db0 # later) \<noteq> []"
    using observe_first [of "Q_where date (Q_eq d)" "diaryEntriesCollection db0"
        "map diaryEntriesCollection later"]
    by (simp add: observeDiaryEntriesForDate_def matches_date_eq)
  have snoc: "observeDiaryEntriesForDate d (h @ [x]) =
     (if filter (\<lambda>e. date e = d) (diaryEntriesCollection x)
           = filter (\<lambda>e. date e = d) (diaryEntriesCollection (last h))
      then observeDiaryEntriesForDate d h
      else observeDiaryEntriesForDate d h @ [filter (\<lambda>e. date e = d) (diaryEntriesCollection x)])"
    if "h \<noteq> []" for h :: "'n Database list" and x
    using that observe_snoc [of "map diaryEntriesCollection h" "Q_where date (Q_eq d)"
        "diaryEntriesCollection x"]
    by (simp add: observeDiaryEntriesForDate_def last_map matches_date_eq)
  have rows: "date entry = d"
    if "snapshot \<in> set (observeDiaryEntriesForDate d history)" "entry \<in> set snapshot"
    using that observe_rows [of snapshot "Q_where date (Q_eq d)"
        "map diaryEntriesCollection history" entry]
    by (simp add: observeDiaryEntriesForDate_def)
  have other: "observeDiaryEntriesForDate d (history @ [snd (logFoodToDiary eng opts (last history))])
          = observeDiaryEntriesForDate d history"
    if "history \<noteq> []" "options.date opts \<noteq> d"
    using that by (simp add: snoc logFoodToDiary_other_date)
  show ?thesis using first snoc rows other by simp
qed

theorem observeDiaryEntriesForDate_live_witness:
  "date entry_5 = ''2024-01-5'' \<and> date entry_16 = ''2024-01-16''
   \<and> diaryEntriesCollection diary_db = [entry_5, entry_16]
   \<and> options.date other_day_opts \<noteq> ''2024-01-15''
   \<and> observeDiaryEntriesForDate ''2024-01-15'' [diary_db] = [[]]
   \<and> observeDiaryEntriesForDate ''2024-01-15''
        [diary_db, snd (logFoodToDiary engine_ok other_day_opts diary_db)] = [[]]
   \<and> observeDiaryEntriesForDate ''2024-01-15''
        [diary_db, snd (logFoodToDiary engine_ok other_day_opts diary_db),
         snd (logFoodToDiary engine_ok log_opts
                (snd (logFoodToDiary engine_ok other_day_opts diary_db)))]
       = [[], [logged_entry]]"
  using observeDiaryEntriesForDate_live
    [of "''2024-01-15''" diary_db "[]" "[diary_db]"
        "snd (logFoodToDiary engine_ok log_opts
                (snd (logFoodToDiary engine_ok other_day_opts diary_db)))"
        "[logged_entry]" logged_entry other_day_opts engine_ok]
  by (simp add: observeDiaryEntriesForDate_def observe_def logFoodToDiary_commit
      engine_ok_def log_opts_def other_day_opts_def diary_db_def entry_5_def entry_16_def
      chicken_def logged_entry_def raw_entry_def)

section \<open>Searching the food catalog\<close>

subsection \<open>Case mapping\<close>

lemma of_char_shift: "n \<le> 223 \<Longrightarrow> of_char (char_of (n + 32 :: nat)) = n + (32 :: nat)"
  by (simp add: of_char_of)

lemma toLowerCase_char_other:
  assumes "toLowerCase_char c = d"
    and "\<not> (97 \<le> (of_char d::nat) \<and> (of_char d::nat) \<le> 122)"
    and "\<not> (224 \<le> (of_char d::nat) \<and> (of_char d::nat) \<le> 254)"
  shows "c = d"
proof (cases "(65 \<le> (of_char c::nat) \<and> (of_char c::nat) \<le> 90)
     \<or> (192 \<le> (of_char c::nat) \<and> (of_char c::nat) \<le> 222 \<and> (of_char c::nat) \<noteq> 215)")
  case True
  then have "d = char_of ((of_char c::nat) + 32)"
    using assms(1) by (simp add: toLowerCase_char_def Let_def)
  moreover have "(of_char c::nat) \<le> 223" using True by auto
  ultimately have "(of_char d::nat) = of_char c + 32" by (simp add: of_char_shift)
  with True assms(2,3) show ?thesis by auto
next
  case False
  then have "toLowerCase_char c = c"
    unfolding toLowerCase_char_def Let_def by (simp only: if_False)
  then show ?thesis using assms(1) by simp
qed

lemma toLowerCase_char_fixed:
  assumes "\<not> (97 \<le> (of_char d::nat) \<and> (of_char d::nat) \<le> 122)"
    and "\<not> (224 \<le> (of_char d::nat) \<and> (of_char d::nat) \<le> 254)"
    and "\<not> (65 \<le> (of_char d::nat) \<and> (of_char d::nat) \<le> 90)"
    and "\<not> (192 \<le> (of_char d::nat) \<and> (of_char d::nat) \<le> 222)"
  shows "toLowerCase_char c = d \<longleftrightarrow> c = d"
proof
  assume "toLowerCase_char c = d"
  then show "c = d" using assms(1,2) by (rule toLowerCase_char_other)
next
  assume "c = d"
  then show "toLowerCase_char c = d"
    using assms(3,4) by (auto simp: toLowerCase_char_def Let_def)
qed

lemma toLowerCase_char_percent [simp]: "toLowerCase_char c = CHR ''%'' \<longleftrightarrow> c = CHR ''%''"
  by (rule toLowerCase_char_fixed) simp_all

lemma toLowerCase_char_underscore [simp]: "toLowerCase_char c = CHR ''_'' \<longleftrightarrow> c = CHR ''_''"
  by (rule toLowerCase_char_fixed) simp_all

lemma toLowerCase_char_space [simp]: "toLowerCase_char c = CHR '' '' \<longleftrightarrow> c = CHR '' ''"
  by (rule toLowerCase_char_fixed) simp_all

lemma is_whitespace_toLowerCase_char [simp]:
  "is_whitespace (toLowerCase_char c) = is_whitespace c"
proof -
  have "toLowerCase_char c = d \<longleftrightarrow> c = d"
    if "d = CHR '' '' \<or> d = CHR 0x09 \<or> d = CHR 0x0A \<or> d = CHR 0x0B \<or> d = CHR 0x0C
          \<or> d = CHR 0x0D \<or> d = CHR 0xA0" for d
    by (rule toLowerCase_char_fixed) (use that in auto)
  then show ?thesis unfolding is_whitespace_def by simp
qed

text \<open>A lowercased character is no capital letter: both case mappings leave it alone.\<close>

lemma toLowerCase_char_small:
  "\<not> ((65 \<le> (of_char (toLowerCase_char c)::nat) \<and> (of_char (toLowerCase_char c)::nat) \<le> 90)
      \<or> (192 \<le> (of_char (toLowerCase_char c)::nat) \<and> (of_char (toLowerCase_char c)::nat) \<le> 222
          \<and> (of_char (toLowerCase_char c)::nat) \<noteq> 215))"
proof (cases "(65 \<le> (of_char c::nat) \<and> (of_char c::nat) \<le> 90)
     \<or> (192 \<le> (of_char c::nat) \<and> (of_char c::nat) \<le> 222 \<and> (of_char c::nat) \<noteq> 215)")
  case True
  then have "toLowerCase_char c = char_of ((of_char c::nat) + 32)"
    by (simp add: toLowerCase_char_def Let_def)
  moreover have "(of_char c::nat) \<le> 223" using True by auto
  ultimately have "(of_char (toLowerCase_char c)::nat) = of_char c + 32"
    by (simp add: of_char_shift)
  with True show ?thesis by auto
next
  case False
  then show ?thesis by (simp add: toLowerCase_char_def Let_def)
qed

lemma toLowerCase_char_idem [simp]:
  "toLowerCase_char (toLowerCase_char c) = toLowerCase_char c"
  using toLowerCase_char_small [of c]
  unfolding toLowerCase_char_def [of "toLowerCase_char c"] Let_def by (simp only: if_False)

lemma like_fold_toLowerCase_char [simp]:
  "like_fold (toLowerCase_char c) = toLowerCase_char c"
  using toLowerCase_char_small [of c]
  unfolding like_fold_def [of "toLowerCase_char c"] Let_def by auto

subsection \<open>Patterns\<close>

lemma map_eq_append_split:
  "map f s = xs @ ys \<Longrightarrow> \<exists>s1 s2. s = s1 @ s2 \<and> map f s1 = xs \<and> map f s2 = ys"
  by (metis map_eq_append_conv)

lemma like_percent [simp]: "like ''%'' s"
  by (induction s) simp_all

lemma like_literal:
  assumes "CHR ''%'' \<notin> set a" "CHR ''_'' \<notin> set a"
  shows "like (a @ p) s
     = (\<exists>s1 s2. s = s1 @ s2 \<and> map like_fold s1 = map like_fold a \<and> like p s2)"
  using assms
proof (induction a arbitrary: s)
  case Nil
  then show ?case by simp
next
  case (Cons x a)
  show ?case
  proof (cases s)
    case Nil
    with Cons.prems show ?thesis by auto
  next
    case (Cons c cs)
    have "x \<noteq> CHR ''%''" "x \<noteq> CHR ''_''" using Cons.prems by auto
    then have "like ((x # a) @ p) (c # cs) = (like_fold x = like_fold c \<and> like (a @ p) cs)"
      by simp
    also have "\<dots> = (like_fold x = like_fold c
        \<and> (\<exists>s1 s2. cs = s1 @ s2 \<and> map like_fold s1 = map like_fold a \<and> like p s2))"
      using Cons.IH [of cs] Cons.prems by simp
    also have "\<dots> = (\<exists>s1 s2. c # cs = s1 @ s2
        \<and> map like_fold s1 = map like_fold (x # a) \<and> like p s2)"
    proof
      assume "like_fold x = like_fold c
        \<and> (\<exists>s1 s2. cs = s1 @ s2 \<and> map like_fold s1 = map like_fold a \<and> like p s2)"
      then obtain s1 s2 where "like_fold x = like_fold c" "cs = s1 @ s2"
        "map like_fold s1 = map like_fold a" "like p s2" by blast
      then have "c # cs = (c # s1) @ s2 \<and> map like_fold (c # s1) = map like_fold (x # a)
          \<and> like p s2" by simp
      then show "\<exists>s1 s2. c # cs = s1 @ s2
        \<and> map like_fold s1 = map like_fold (x # a) \<and> like p s2" by blast
    next
      assume "\<exists>s1 s2. c # cs = s1 @ s2
        \<and> map like_fold s1 = map like_fold (x # a) \<and> like p s2"
      then obtain s1 s2 where *: "c # cs = s1 @ s2"
        "map like_fold s1 = map like_fold (x # a)" "like p s2" by blast
      from *(2) obtain y ys where s1: "s1 = y # ys" by (cases s1) simp_all
      with * have "like_fold x = like_fold c" "cs = ys @ s2"
        "map like_fold ys = map like_fold a" by simp_all
      with *(3) show "like_fold x = like_fold c
        \<and> (\<exists>s1 s2. cs = s1 @ s2 \<and> map like_fold s1 = map like_fold a \<and> like p s2)"
        by blast
    qed
    finally show ?thesis using Cons by simp
  qed
qed

lemma like_any_suffix: "like (CHR ''%'' # p) s = (\<exists>t. suffix t s \<and> like p t)"
proof (induction s)
  case Nil
  then show ?case by simp
next
  case (Cons c cs)
  then show ?case by (auto simp: suffix_Cons)
qed

lemma like_one: "like (CHR ''_'' # p) s = (\<exists>c t. s = c # t \<and> like p t)"
  by (cases s) simp_all

lemma like_prefix:
  assumes "CHR ''%'' \<notin> set w" "CHR ''_'' \<notin> set w"
  shows "like (w @ ''%'') s = prefix (map like_fold w) (map like_fold s)"
proof -
  have "like (w @ ''%'') s = (\<exists>s1 s2. s = s1 @ s2 \<and> map like_fold s1 = map like_fold w)"
    using like_literal [OF assms, of "''%''" s] by simp
  also have "\<dots> = prefix (map like_fold w) (map like_fold s)"
  proof
    assume "\<exists>s1 s2. s = s1 @ s2 \<and> map like_fold s1 = map like_fold w"
    then show "prefix (map like_fold w) (map like_fold s)" by (auto simp: prefix_def)
  next
    assume "prefix (map like_fold w) (map like_fold s)"
    then obtain r where "map like_fold s = map like_fold w @ r" by (auto simp: prefix_def)
    then obtain s1 s2 where "s = s1 @ s2" "map like_fold s1 = map like_fold w"
      using map_eq_append_split by blast
    then show "\<exists>s1 s2. s = s1 @ s2 \<and> map like_fold s1 = map like_fold w" by blast
  qed
  finally show ?thesis .
qed

lemma like_contains:
  assumes "CHR ''%'' \<notin> set w" "CHR ''_'' \<notin> set w"
  shows "like (''%'' @ w @ ''%'') s = sublist (map like_fold w) (map like_fold s)"
proof -
  have "like (''%'' @ w @ ''%'') s
          = (\<exists>t. suffix t s \<and> prefix (map like_fold w) (map like_fold t))"
    using assms by (simp add: like_any_suffix like_prefix)
  also have "\<dots> = (\<exists>t'. suffix t' (map like_fold s) \<and> prefix (map like_fold w) t')"
    by (metis map_mono_suffix suffix_map_rightE)
  finally show ?thesis by (simp add: sublist_altdef')
qed

text \<open>Inside a word, \<open>_\<close> stands for any one character and \<open>%\<close> for any run.\<close>

lemma sublist_map_split:
  "sublist xs (map f s) \<longleftrightarrow> (\<exists>pre mid post. s = pre @ mid @ post \<and> map f mid = xs)"
proof
  assume "sublist xs (map f s)"
  then obtain P Q where "map f s = P @ xs @ Q" by (auto simp: sublist_def)
  then obtain pre rest where "s = pre @ rest" "map f rest = xs @ Q"
    using map_eq_append_split by blast
  moreover from this obtain mid post where "rest = mid @ post" "map f mid = xs"
    using map_eq_append_split by blast
  ultimately show "\<exists>pre mid post. s = pre @ mid @ post \<and> map f mid = xs" by blast
next
  assume "\<exists>pre mid post. s = pre @ mid @ post \<and> map f mid = xs"
  then obtain pre mid post where "s = pre @ mid @ post" "map f mid = xs" by blast
  then have "map f s = map f pre @ xs @ map f post" by simp
  then show "sublist xs (map f s)" unfolding sublist_def by blast
qed

lemma like_inner_suffix:
  assumes "CHR ''%'' \<notin> set a" "CHR ''_'' \<notin> set a"
  shows "like (''%'' @ a @ p) s
     = (\<exists>pre s1 s2. s = pre @ s1 @ s2 \<and> map like_fold s1 = map like_fold a \<and> like p s2)"
proof -
  have "like (''%'' @ a @ p) s = (\<exists>t. suffix t s \<and> like (a @ p) t)"
    by (simp add: like_any_suffix)
  also have "\<dots> = (\<exists>t. suffix t s
      \<and> (\<exists>s1 s2. t = s1 @ s2 \<and> map like_fold s1 = map like_fold a \<and> like p s2))"
    by (simp add: like_literal [OF assms])
  also have "\<dots> = (\<exists>pre s1 s2. s = pre @ s1 @ s2
      \<and> map like_fold s1 = map like_fold a \<and> like p s2)"
    unfolding suffix_def by blast
  finally show ?thesis .
qed

lemma like_underscore:
  assumes "CHR ''%'' \<notin> set a" "CHR ''_'' \<notin> set a" "CHR ''%'' \<notin> set b" "CHR ''_'' \<notin> set b"
  shows "like (''%'' @ a @ ''_'' @ b @ ''%'') s
     = (\<exists>c. sublist (map like_fold (a @ [c] @ b)) (map like_fold s))"
proof -
  have "like (''%'' @ a @ ''_'' @ b @ ''%'') s
      = (\<exists>pre s1 s2. s = pre @ s1 @ s2 \<and> map like_fold s1 = map like_fold a
           \<and> like (''_'' @ b @ ''%'') s2)"
    by (rule like_inner_suffix [OF assms(1,2)])
  also have "\<dots> = (\<exists>pre s1 c t. s = pre @ s1 @ c # t \<and> map like_fold s1 = map like_fold a
           \<and> prefix (map like_fold b) (map like_fold t))"
    by (simp add: like_one like_prefix [OF assms(3,4)]) blast
  also have "\<dots> = (\<exists>c. sublist (map like_fold (a @ [c] @ b)) (map like_fold s))"
  proof
    assume "\<exists>pre s1 c t. s = pre @ s1 @ c # t \<and> map like_fold s1 = map like_fold a
           \<and> prefix (map like_fold b) (map like_fold t)"
    then obtain pre s1 c t r where "s = pre @ s1 @ c # t" "map like_fold s1 = map like_fold a"
      "map like_fold t = map like_fold b @ r" by (auto simp: prefix_def)
    then have "map like_fold s
        = map like_fold pre @ map like_fold (a @ [c] @ b) @ r" by simp
    then show "\<exists>c. sublist (map like_fold (a @ [c] @ b)) (map like_fold s)"
      unfolding sublist_def by blast
  next
    assume "\<exists>c. sublist (map like_fold (a @ [c] @ b)) (map like_fold s)"
    then obtain c pre mid post where s: "s = pre @ mid @ post"
      and mid: "map like_fold mid = map like_fold (a @ [c] @ b)"
      unfolding sublist_map_split by blast
    from mid have "map like_fold mid = map like_fold a @ map like_fold ([c] @ b)" by simp
    then obtain s1 rest where 1: "mid = s1 @ rest" "map like_fold s1 = map like_fold a"
      "map like_fold rest = map like_fold ([c] @ b)"
      using map_eq_append_split by blast
    from 1(3) obtain c' t where 2: "rest = c' # t" "map like_fold t = map like_fold b"
      by (cases rest) auto
    have "s = pre @ s1 @ c' # (t @ post)" using s 1(1) 2(1) by simp
    moreover have "prefix (map like_fold b) (map like_fold (t @ post))"
      using 2(2) by simp
    ultimately show "\<exists>pre s1 c t. s = pre @ s1 @ c # t \<and> map like_fold s1 = map like_fold a
           \<and> prefix (map like_fold b) (map like_fold t)"
      using 1(2) by blast
  qed
  finally show ?thesis .
qed

lemma like_percent_inside:
  assumes "CHR ''%'' \<notin> set a" "CHR ''_'' \<notin> set a" "CHR ''%'' \<notin> set b" "CHR ''_'' \<notin> set b"
  shows "like (''%'' @ a @ ''%'' @ b @ ''%'') s
     = (\<exists>m. sublist (map like_fold (a @ m @ b)) (map like_fold s))"
proof -
  have "like (''%'' @ a @ ''%'' @ b @ ''%'') s
      = (\<exists>pre s1 s2. s = pre @ s1 @ s2 \<and> map like_fold s1 = map like_fold a
           \<and> like (''%'' @ b @ ''%'') s2)"
    by (rule like_inner_suffix [OF assms(1,2)])
  also have "\<dots> = (\<exists>pre s1 s2. s = pre @ s1 @ s2 \<and> map like_fold s1 = map like_fold a
           \<and> sublist (map like_fold b) (map like_fold s2))"
    by (simp only: like_contains [OF assms(3,4)])
  also have "\<dots> = (\<exists>m. sublist (map like_fold (a @ m @ b)) (map like_fold s))"
  proof
    assume "\<exists>pre s1 s2. s = pre @ s1 @ s2 \<and> map like_fold s1 = map like_fold a
           \<and> sublist (map like_fold b) (map like_fold s2)"
    then obtain pre s1 s2 m mid post where "s = pre @ s1 @ s2"
      "map like_fold s1 = map like_fold a" "s2 = m @ mid @ post"
      "map like_fold mid = map like_fold b"
      unfolding sublist_map_split by blast
    then have "map like_fold s
        = map like_fold pre @ map like_fold (a @ m @ b) @ map like_fold post" by simp
    then show "\<exists>m. sublist (map like_fold (a @ m @ b)) (map like_fold s)"
      unfolding sublist_def by blast
  next
    assume "\<exists>m. sublist (map like_fold (a @ m @ b)) (map like_fold s)"
    then obtain m pre mid post where s: "s = pre @ mid @ post"
      and mid: "map like_fold mid = map like_fold (a @ m @ b)"
      unfolding sublist_map_split by blast
    from mid have "map like_fold mid = map like_fold a @ map like_fold (m @ b)" by simp
    then obtain s1 rest where 1: "mid = s1 @ rest" "map like_fold s1 = map like_fold a"
      "map like_fold rest = map like_fold (m @ b)"
      using map_eq_append_split by blast
    from 1(3) have "map like_fold rest = map like_fold m @ map like_fold b" by simp
    then obtain m' b' where 2: "rest = m' @ b'" "map like_fold b' = map like_fold b"
      using map_eq_append_split by blast
    have "s = pre @ s1 @ (m' @ b' @ post)" using s 1(1) 2(1) by simp
    moreover have "sublist (map like_fold b) (map like_fold (m' @ b' @ post))"
      using 2(2) unfolding sublist_map_split by blast
    ultimately show "\<exists>pre s1 s2. s = pre @ s1 @ s2 \<and> map like_fold s1 = map like_fold a
           \<and> sublist (map like_fold b) (map like_fold s2)"
      using 1(2) by blast
  qed
  finally show ?thesis .
qed

subsection \<open>Splitting a query into words\<close>


lemma split_on_not_Nil [simp]: "split_on sep s \<noteq> []"
  by (induction s) (auto split: list.splits)


lemma split_on_append:
  "split_on sep (a @ sep # b) = split_on sep a @ split_on sep b"
proof (induction a)
  case Nil
  then show ?case by simp
next
  case (Cons c a)
  then show ?case by (cases "split_on sep a") simp_all
qed

lemma split_on_single: "sep \<notin> set s \<Longrightarrow> split_on sep s = [s]"
  by (induction s) auto

lemma split_on_has_word:
  "\<exists>c \<in> set s. c \<noteq> sep \<Longrightarrow> filter (\<lambda>w. w \<noteq> []) (split_on sep s) \<noteq> []"
proof (induction s)
  case Nil
  then show ?case by simp
next
  case (Cons c cs)
  show ?case
  proof (cases "c = sep")
    case True
    with Cons show ?thesis by auto
  next
    case False
    obtain v vs where "split_on sep cs = v # vs"
      by (cases "split_on sep cs") simp_all
    with False show ?thesis by simp
  qed
qed

lemma toLowerCase_append: "toLowerCase (a @ b) = toLowerCase a @ toLowerCase b"
  by (simp add: toLowerCase_def)

lemma toLowerCase_spaces: "toLowerCase (replicate n CHR '' '') = replicate n CHR '' ''"
  by (simp add: toLowerCase_def)

lemma toLowerCase_idem [simp]: "toLowerCase (toLowerCase s) = toLowerCase s"
  by (simp add: toLowerCase_def)

lemma like_fold_toLowerCase [simp]: "map like_fold (toLowerCase s) = toLowerCase s"
  by (simp add: toLowerCase_def)

lemma toLowerCase_keeps:
  assumes "d = CHR ''%'' \<or> d = CHR ''_'' \<or> d = CHR '' ''"
  shows "d \<in> set (toLowerCase s) \<longleftrightarrow> d \<in> set s"
proof -
  have fixed: "toLowerCase_char c = d \<longleftrightarrow> c = d" for c
    using assms by auto
  show ?thesis
  proof
    assume "d \<in> set (toLowerCase s)"
    then obtain c where "c \<in> set s" "toLowerCase_char c = d"
      unfolding toLowerCase_def by auto
    then show "d \<in> set s" using fixed by simp
  next
    assume "d \<in> set s"
    moreover have "toLowerCase_char d = d" using fixed by simp
    ultimately show "d \<in> set (toLowerCase s)"
      unfolding toLowerCase_def by (metis image_eqI list.set_map)
  qed
qed

lemma has_word_iff: "has_word query \<longleftrightarrow> (\<exists>c \<in> set query. c \<noteq> CHR '' '')"
  by (simp add: has_word_def list_ex_iff)

lemma has_word_not_Nil: "has_word query \<Longrightarrow> query \<noteq> []"
  by (auto simp: has_word_iff)

lemma has_word_searchWords: "has_word query \<Longrightarrow> searchWords query \<noteq> []"
proof -
  assume "has_word query"
  then obtain c where "c \<in> set query" "c \<noteq> CHR '' ''" by (auto simp: has_word_iff)
  then have "toLowerCase_char c \<in> set (toLowerCase query)" "toLowerCase_char c \<noteq> CHR '' ''"
    by (simp_all add: toLowerCase_def)
  then have "\<exists>c \<in> set (toLowerCase query). c \<noteq> CHR '' ''" by blast
  then show ?thesis unfolding searchWords_def by (rule split_on_has_word)
qed






text \<open>The search as the conjunction of one pattern per search word.\<close>

lemma searchFoods_patterns:
  assumes "available eng" "query \<noteq> []"
  shows "searchFoods eng query db =
     Inr (filter (\<lambda>f. list_all (\<lambda>word. like (''%'' @ word @ ''%'') (Food.name f))
                        (searchWords query))
            (foodsCollection db))"
proof -
  have "matches (Q_and (map (\<lambda>word. Q_where Food.name (Q_like (''%'' @ word @ ''%''))) ws)) f
      = list_all (\<lambda>word. like (''%'' @ word @ ''%'') (Food.name f)) ws"
    for ws and f :: "'a Food"
    by (simp add: list_all_iff del: like.simps append.simps)
  then have "filter (matches (Q_and (map (\<lambda>word. Q_where Food.name
                 (Q_like (''%'' @ word @ ''%''))) (searchWords query)))) (foodsCollection db)
      = filter (\<lambda>f. list_all (\<lambda>word. like (''%'' @ word @ ''%'') (Food.name f))
                        (searchWords query)) (foodsCollection db)"
    by presburger
  then show ?thesis using assms unfolding searchFoods_def fetch_def by simp
qed



lemma words_leading_spaces:
  "filter (\<lambda>w. w \<noteq> []) (split_on CHR '' '' (replicate n CHR '' '' @ s))
     = filter (\<lambda>w. w \<noteq> []) (split_on CHR '' '' s)"
  by (induction n) simp_all

lemma words_trailing_spaces:
  "filter (\<lambda>w. w \<noteq> []) (split_on CHR '' '' (s @ replicate n CHR '' ''))
     = filter (\<lambda>w. w \<noteq> []) (split_on CHR '' '' s)"
proof (induction n)
  case 0
  then show ?case by simp
next
  case (Suc n)
  have "s @ replicate (Suc n) CHR '' '' = s @ CHR '' '' # replicate n CHR '' ''"
    by simp
  then have "filter (\<lambda>w. w \<noteq> []) (split_on CHR '' '' (s @ replicate (Suc n) CHR '' ''))
      = filter (\<lambda>w. w \<noteq> []) (split_on CHR '' '' s)
          @ filter (\<lambda>w. w \<noteq> []) (split_on CHR '' '' (replicate n CHR '' ''))"
    by (simp only: split_on_append filter_append)
  moreover have "filter (\<lambda>w. w \<noteq> []) (split_on CHR '' '' (replicate n CHR '' '')) = []"
    using words_leading_spaces [of n "[]"] by simp
  ultimately show ?case by simp
qed

lemma searchWords_padding:
  "searchWords (replicate m CHR '' '' @ query @ replicate n CHR '' '') = searchWords query"
  unfolding searchWords_def toLowerCase_append toLowerCase_spaces
  by (simp only: words_leading_spaces words_trailing_spaces)

lemma searchWords_single:
  assumes "CHR '' '' \<notin> set w" "w \<noteq> []"
  shows "searchWords w = [toLowerCase w]"
proof -
  have "CHR '' '' \<notin> set (toLowerCase w)" using assms(1) by (simp add: toLowerCase_keeps)
  then have "split_on CHR '' '' (toLowerCase w) = [toLowerCase w]" by (rule split_on_single)
  then show ?thesis using assms(2) by (simp add: searchWords_def toLowerCase_def)
qed

subsection \<open>The claims about the search\<close>




text \<open>
  Claim C3. A query that is empty after trimming should give the empty result. The code
  does so for the empty string only: for a query of three spaces the list of search
  words is empty, the conjunction of no clause holds of every row, and the whole catalog
  is returned.
\<close>

theorem searchFoods_blank_query:
  "searchFoods engine_ok ''   '' catalog_db = Inr [chicken, salmon]"
  by code_simp

text \<open>
  Claim C9, as amended. For every query that has a character other than the space,
  adding any number of leading and trailing spaces does not change the result of
  \<open>searchFoods\<close>, and every query with the same lowercased form (every case variant of
  it) has the same result. A query of spaces only, or empty, is left out: what the code
  does with it is the matter of claim C3.
\<close>

theorem searchFoods_padding_case:
  assumes "has_word query"
  shows "searchFoods eng (replicate m CHR '' '' @ query @ replicate n CHR '' '') db
        = searchFoods eng query db
   \<and> (toLowerCase query' = toLowerCase query \<longrightarrow>
        searchFoods eng query' db = searchFoods eng query db)"
proof (intro conjI impI)
  have "query \<noteq> []" using assms by (rule has_word_not_Nil)
  then show "searchFoods eng (replicate m CHR '' '' @ query @ replicate n CHR '' '') db
        = searchFoods eng query db"
    by (simp add: searchFoods_def searchWords_padding)
next
  assume eq: "toLowerCase query' = toLowerCase query"
  then have "length query' = length query"
    unfolding toLowerCase_def by (metis length_map)
  then have "query' = [] \<longleftrightarrow> query = []" by auto
  moreover have "searchWords query' = searchWords query"
    using eq by (simp add: searchWords_def)
  ultimately show "searchFoods eng query' db = searchFoods eng query db"
    by (simp add: searchFoods_def)
qed

theorem searchFoods_padding_case_witness:
  "has_word ''chicken''
   \<and> searchFoods engine_ok (''  '' @ ''chicken'' @ '' '') catalog_db
       = searchFoods engine_ok ''chicken'' catalog_db
   \<and> toLowerCase ''ChIcKeN'' = toLowerCase ''chicken''
   \<and> searchFoods engine_ok ''ChIcKeN'' catalog_db = searchFoods engine_ok ''chicken'' catalog_db
   \<and> searchFoods engine_ok ''chicken'' catalog_db = Inr [chicken]
   \<and> has_word (''caf'' @ [CHR 0xE9])
   \<and> toLowerCase (''CAF'' @ [CHR 0xC9]) = toLowerCase (''caf'' @ [CHR 0xE9])
   \<and> searchFoods engine_ok (''CAF'' @ [CHR 0xC9]) cafe_db
       = searchFoods engine_ok (''caf'' @ [CHR 0xE9]) cafe_db
   \<and> searchFoods engine_ok (''caf'' @ [CHR 0xE9]) cafe_db = Inr [cafe_latte]"
proof -
  have h: "has_word ''chicken''" by code_simp
  have c: "toLowerCase ''ChIcKeN'' = toLowerCase ''chicken''" by code_simp
  have r: "searchFoods engine_ok ''chicken'' catalog_db = Inr [chicken]" by code_simp
  have p: "replicate 2 CHR '' '' = ''  ''" "replicate 1 CHR '' '' = '' ''"
    by (simp_all add: numeral_2_eq_2)
  have h': "has_word (''caf'' @ [CHR 0xE9])" by code_simp
  have c': "toLowerCase (''CAF'' @ [CHR 0xC9]) = toLowerCase (''caf'' @ [CHR 0xE9])"
    by code_simp
  have r': "searchFoods engine_ok (''caf'' @ [CHR 0xE9]) cafe_db = Inr [cafe_latte]"
    by code_simp
  show ?thesis
    using searchFoods_padding_case [OF h, of engine_ok 2 1 catalog_db "''ChIcKeN''"]
      searchFoods_padding_case [OF h', of engine_ok 0 0 cafe_db "''CAF'' @ [CHR 0xC9]"]
      h c r h' c' r'
    unfolding p by simp
qed

text \<open>
  The claim as written fails for whitespace other than the space: a leading tab becomes
  part of the search word, and nothing is found.
\<close>

theorem searchFoods_padding_case_counterexample:
  "searchFoods engine_ok (CHR 0x09 # ''chicken'') catalog_db = Inr []
   \<and> searchFoods engine_ok ''chicken'' catalog_db = Inr [chicken]"
  by code_simp

text \<open>
  Claim C10. A search word goes into the pattern \<open>%word%\<close> as it is, so \<open>%\<close> and
  \<open>_\<close> in it are wildcards. In general, for a non-empty query the search returns the
  foods whose name matches the pattern \<open>%word%\<close> of every search word. For a query that
  is the single word \<open>a_b\<close> (no wildcard and no space in \<open>a\<close> and \<open>b\<close>) it returns the
  foods whose name contains \<open>a\<close>, then any one character, then \<open>b\<close>; for the single
  word \<open>a%b\<close>, those whose name contains \<open>a\<close>, then any run of characters, then
  \<open>b\<close> (names and words up to the case of \<open>A\<close> to \<open>Z\<close>). And there is a query with
  a token containing a wildcard for which \<open>searchFoods\<close> returns a food whose name does
  not contain the token: \<open>ch%n br_ast\<close> finds the grilled chicken breast.
\<close>

theorem searchFoods_wildcards:
  "(available eng \<longrightarrow> query \<noteq> [] \<longrightarrow>
      searchFoods eng query db =
        Inr (filter (\<lambda>f. list_all (\<lambda>word. like (''%'' @ word @ ''%'') (Food.name f))
                           (searchWords query))
               (foodsCollection db)))
   \<and> (available eng \<longrightarrow> no_wildcards a \<longrightarrow> no_wildcards b \<longrightarrow>
        CHR '' '' \<notin> set a \<longrightarrow> CHR '' '' \<notin> set b \<longrightarrow>
        searchFoods eng (a @ ''_'' @ b) db =
          Inr (filter (\<lambda>f. \<exists>c. sublist (toLowerCase a @ [c] @ toLowerCase b)
                                   (map like_fold (Food.name f)))
                 (foodsCollection db)))
   \<and> (available eng \<longrightarrow> no_wildcards a \<longrightarrow> no_wildcards b \<longrightarrow>
        CHR '' '' \<notin> set a \<longrightarrow> CHR '' '' \<notin> set b \<longrightarrow>
        searchFoods eng (a @ ''%'' @ b) db =
          Inr (filter (\<lambda>f. \<exists>m. sublist (toLowerCase a @ m @ toLowerCase b)
                                   (map like_fold (Food.name f)))
                 (foodsCollection db)))
   \<and> (\<exists>query token food.
         token \<in> set (searchWords query)
       \<and> (CHR ''%'' \<in> set token \<or> CHR ''_'' \<in> set token)
       \<and> searchFoods engine_ok query catalog_db = Inr [food]
       \<and> \<not> sublist token (toLowerCase (Food.name food)))"
proof (intro conjI impI)
  assume "available eng" "query \<noteq> []"
  then show "searchFoods eng query db =
        Inr (filter (\<lambda>f. list_all (\<lambda>word. like (''%'' @ word @ ''%'') (Food.name f))
                           (searchWords query))
               (foodsCollection db))"
    by (rule searchFoods_patterns)
next
  assume eng: "available eng" and ab: "no_wildcards a" "no_wildcards b"
    "CHR '' '' \<notin> set a" "CHR '' '' \<notin> set b"
  have la: "CHR ''%'' \<notin> set (toLowerCase a)" "CHR ''_'' \<notin> set (toLowerCase a)"
    and lb: "CHR ''%'' \<notin> set (toLowerCase b)" "CHR ''_'' \<notin> set (toLowerCase b)"
    using ab(1,2) by (auto simp: no_wildcards_def list_all_iff toLowerCase_keeps)
  have w: "searchWords (a @ ''_'' @ b) = [toLowerCase a @ ''_'' @ toLowerCase b]"
    using searchWords_single [of "a @ ''_'' @ b"] ab(3,4)
    by (simp add: toLowerCase_append) (simp add: toLowerCase_def)
  have "like (''%'' @ (toLowerCase a @ ''_'' @ toLowerCase b) @ ''%'') s
      = (\<exists>c. sublist (toLowerCase a @ [c] @ toLowerCase b) (map like_fold s))" for s
  proof -
    have "like (''%'' @ toLowerCase a @ ''_'' @ toLowerCase b @ ''%'') s
      = (\<exists>c. sublist (map like_fold (toLowerCase a @ [c] @ toLowerCase b)) (map like_fold s))"
      by (rule like_underscore [OF la lb])
    also have "\<dots> = (\<exists>c. sublist (toLowerCase a @ [c] @ toLowerCase b) (map like_fold s))"
    proof
      assume "\<exists>c. sublist (map like_fold (toLowerCase a @ [c] @ toLowerCase b)) (map like_fold s)"
      then obtain c where
        "sublist (toLowerCase a @ [like_fold c] @ toLowerCase b) (map like_fold s)" by auto
      then show "\<exists>c. sublist (toLowerCase a @ [c] @ toLowerCase b) (map like_fold s)" by blast
    next
      assume "\<exists>c. sublist (toLowerCase a @ [c] @ toLowerCase b) (map like_fold s)"
      then obtain c where c: "sublist (toLowerCase a @ [c] @ toLowerCase b) (map like_fold s)"
        by blast
      then have "c \<in> set (map like_fold s)"
        using set_mono_sublist [OF c] by auto
      then obtain c' where "c = like_fold c'" by auto
      with c have "sublist (map like_fold (toLowerCase a @ [c'] @ toLowerCase b))
          (map like_fold s)" by simp
      then show "\<exists>c. sublist (map like_fold (toLowerCase a @ [c] @ toLowerCase b))
          (map like_fold s)" by blast
    qed
    finally show ?thesis by simp
  qed
  then show "searchFoods eng (a @ ''_'' @ b) db =
          Inr (filter (\<lambda>f. \<exists>c. sublist (toLowerCase a @ [c] @ toLowerCase b)
                                   (map like_fold (Food.name f)))
                 (foodsCollection db))"
    using eng by (simp add: searchFoods_patterns w del: like.simps append.simps)
next
  assume eng: "available eng" and ab: "no_wildcards a" "no_wildcards b"
    "CHR '' '' \<notin> set a" "CHR '' '' \<notin> set b"
  have la: "CHR ''%'' \<notin> set (toLowerCase a)" "CHR ''_'' \<notin> set (toLowerCase a)"
    and lb: "CHR ''%'' \<notin> set (toLowerCase b)" "CHR ''_'' \<notin> set (toLowerCase b)"
    using ab(1,2) by (auto simp: no_wildcards_def list_all_iff toLowerCase_keeps)
  have w: "searchWords (a @ ''%'' @ b) = [toLowerCase a @ ''%'' @ toLowerCase b]"
    using searchWords_single [of "a @ ''%'' @ b"] ab(3,4)
    by (simp add: toLowerCase_append) (simp add: toLowerCase_def)
  have "like (''%'' @ (toLowerCase a @ ''%'' @ toLowerCase b) @ ''%'') s
      = (\<exists>m. sublist (toLowerCase a @ m @ toLowerCase b) (map like_fold s))" for s
  proof -
    have "like (''%'' @ toLowerCase a @ ''%'' @ toLowerCase b @ ''%'') s
      = (\<exists>m. sublist (map like_fold (toLowerCase a @ m @ toLowerCase b)) (map like_fold s))"
      by (rule like_percent_inside [OF la lb])
    also have "\<dots> = (\<exists>m. sublist (toLowerCase a @ m @ toLowerCase b) (map like_fold s))"
    proof
      assume "\<exists>m. sublist (map like_fold (toLowerCase a @ m @ toLowerCase b)) (map like_fold s)"
      then obtain m where
        "sublist (toLowerCase a @ map like_fold m @ toLowerCase b) (map like_fold s)" by auto
      then show "\<exists>m. sublist (toLowerCase a @ m @ toLowerCase b) (map like_fold s)" by blast
    next
      assume "\<exists>m. sublist (toLowerCase a @ m @ toLowerCase b) (map like_fold s)"
      then obtain m where m: "sublist (toLowerCase a @ m @ toLowerCase b) (map like_fold s)"
        by blast
      then have "set m \<subseteq> set (map like_fold s)"
        using set_mono_sublist [OF m] by auto
      then have "set m \<subseteq> range like_fold" by auto
      then obtain m' where "m = map like_fold m'"
        by (metis ex_map_conv subset_image_iff subset_UNIV image_subset_iff rangeE subsetD)
      with m have "sublist (map like_fold (toLowerCase a @ m' @ toLowerCase b))
          (map like_fold s)" by simp
      then show "\<exists>m. sublist (map like_fold (toLowerCase a @ m @ toLowerCase b))
          (map like_fold s)" by blast
    qed
    finally show ?thesis by simp
  qed
  then show "searchFoods eng (a @ ''%'' @ b) db =
          Inr (filter (\<lambda>f. \<exists>m. sublist (toLowerCase a @ m @ toLowerCase b)
                                   (map like_fold (Food.name f)))
                 (foodsCollection db))"
    using eng by (simp add: searchFoods_patterns w del: like.simps append.simps)
next
  show "\<exists>query token food.
         token \<in> set (searchWords query)
       \<and> (CHR ''%'' \<in> set token \<or> CHR ''_'' \<in> set token)
       \<and> searchFoods engine_ok query catalog_db = Inr [food]
       \<and> \<not> sublist token (toLowerCase (Food.name food))"
  proof (intro exI conjI)
    show "''ch%n'' \<in> set (searchWords ''ch%n br_ast'')" by code_simp
    show "CHR ''%'' \<in> set ''ch%n'' \<or> CHR ''_'' \<in> set ''ch%n''" by simp
    show "searchFoods engine_ok ''ch%n br_ast'' catalog_db = Inr [chicken]" by code_simp
    show "\<not> sublist ''ch%n'' (toLowerCase (Food.name chicken))" by code_simp
  qed
qed

theorem searchFoods_wildcards_witness:
  "available engine_ok \<and> ''ch%n br_ast'' \<noteq> []
   \<and> no_wildcards ''ch'' \<and> no_wildcards ''cken''
   \<and> CHR '' '' \<notin> set ''ch'' \<and> CHR '' '' \<notin> set ''cken''
   \<and> searchFoods engine_ok ''ch%n br_ast'' catalog_db = Inr [chicken]
   \<and> searchFoods engine_ok (''ch'' @ ''_'' @ ''cken'') catalog_db = Inr [chicken]
   \<and> searchFoods engine_ok (''ch'' @ ''%'' @ ''cken'') catalog_db = Inr [chicken]
   \<and> \<not> sublist ''ch_cken'' (toLowerCase (Food.name chicken))
   \<and> \<not> sublist ''ch%cken'' (toLowerCase (Food.name chicken))"
proof -
  have a: "available engine_ok" by (simp add: engine_ok_def)
  have n: "no_wildcards ''ch''" "no_wildcards ''cken''" by code_simp+
  have r: "searchFoods engine_ok ''ch%n br_ast'' catalog_db = Inr [chicken]" by code_simp
  have r1: "searchFoods engine_ok (''ch'' @ ''_'' @ ''cken'') catalog_db = Inr [chicken]"
    by code_simp
  have r2: "searchFoods engine_ok (''ch'' @ ''%'' @ ''cken'') catalog_db = Inr [chicken]"
    by code_simp
  have s: "\<not> sublist ''ch_cken'' (toLowerCase (Food.name chicken))"
    "\<not> sublist ''ch%cken'' (toLowerCase (Food.name chicken))" by code_simp+
  show ?thesis
    using searchFoods_wildcards [of engine_ok "''ch%n br_ast''" catalog_db "''ch''" "''cken''"]
      a n r r1 r2 s
    by simp
qed

end
